theory Spec2Isabelle
  imports Main "HOL-Library.AList" "HOL-Library.Char_ord" "HOL-Library.List_Lexorder"
    "HOL-Library.Multiset"
begin

section \<open>Severity levels (logger.go, lines 13-38)\<close>

text \<open>
  \<^verbatim>\<open>type LogLevel int\<close>: the comparison \<^verbatim>\<open>level < l.level\<close> is the only arithmetic
  the package does on a level, so the machine width of \<^verbatim>\<open>int\<close> plays no role and a
  level is an integer.
\<close>

type_synonym LogLevel = int

definition LevelDebug :: LogLevel where "LevelDebug = 0"
definition LevelInfo :: LogLevel where "LevelInfo = 1"
definition LevelWarn :: LogLevel where "LevelWarn = 2"
definition LevelError :: LogLevel where "LevelError = 3"
definition LevelFatal :: LogLevel where "LevelFatal = 4"
definition LevelPanic :: LogLevel where "LevelPanic = 5"

text \<open>The map literal \<^verbatim>\<open>levelNames\<close>, as an association list.\<close>

definition levelNames :: "(LogLevel \<times> string) list" where
  "levelNames =
    [(LevelDebug, ''DEBUG''), (LevelInfo, ''INFO''), (LevelWarn, ''WARN''),
     (LevelError, ''ERROR''), (LevelFatal, ''FATAL''), (LevelPanic, ''PANIC'')]"

text \<open>\<^verbatim>\<open>func (l LogLevel) String() string\<close>\<close>

definition LogLevel_String :: "LogLevel \<Rightarrow> string" where
  "LogLevel_String l = (case map_of levelNames l of Some name \<Rightarrow> name | None \<Rightarrow> ''UNKNOWN'')"


section \<open>Field values and their JSON encoding\<close>

text \<open>
  \<^verbatim>\<open>type Fields map[string]interface{}\<close>. A field value is any Go value; the model
  covers nil, booleans, integers, strings, slices and string-keyed maps of such values,
  and \<open>VUnsupported e\<close>: a value that \<^verbatim>\<open>json.Marshal\<close> rejects (a channel, a
  function, a complex number, a \<^verbatim>\<open>Marshaler\<close> that fails), \<open>e\<close> being the text of the
  error that \<^verbatim>\<open>Marshal\<close> returns for it. Strings are byte strings, as in Go.

  A Go map is an association list; \<open>map_of\<close> reads it, \<open>AList.update\<close> is the
  assignment \<^verbatim>\<open>m[k] = v\<close>, and the order of the list is one of the orders in which
  \<^verbatim>\<open>range\<close> may visit the entries. The keys of a Go map are distinct.
\<close>

datatype gvalue =
    VNil
  | VBool bool
  | VInt int
  | VString string
  | VSlice "gvalue list"
  | VMap "(string \<times> gvalue) list"
  | VUnsupported string

type_synonym Fields = "(string \<times> gvalue) list"

definition distinct_keys :: "Fields \<Rightarrow> bool" where
  "distinct_keys m = distinct (map fst m)"

subsection \<open>Package unicode/utf8: decoding one rune\<close>

definition RuneError :: nat where "RuneError = 0xFFFD"
definition RuneSelf :: nat where "RuneSelf = 0x80"
definition UTFMax :: nat where "UTFMax = 4"

text \<open>
  The tables \<^verbatim>\<open>first\<close> and \<^verbatim>\<open>acceptRanges\<close> for a lead byte that is not ASCII:
  the width of the sequence and the range accepted for its second byte, or \<open>None\<close> for
  a byte that starts no sequence.
\<close>

definition first_info :: "nat \<Rightarrow> (nat \<times> nat \<times> nat) option" where
  "first_info b =
    (if 0xC2 \<le> b \<and> b \<le> 0xDF then Some (2, 0x80, 0xBF)
     else if b = 0xE0 then Some (3, 0xA0, 0xBF)
     else if 0xE1 \<le> b \<and> b \<le> 0xEC then Some (3, 0x80, 0xBF)
     else if b = 0xED then Some (3, 0x80, 0x9F)
     else if 0xEE \<le> b \<and> b \<le> 0xEF then Some (3, 0x80, 0xBF)
     else if b = 0xF0 then Some (4, 0x90, 0xBF)
     else if 0xF1 \<le> b \<and> b \<le> 0xF3 then Some (4, 0x80, 0xBF)
     else if b = 0xF4 then Some (4, 0x80, 0x8F)
     else None)"

definition byte_at :: "string \<Rightarrow> nat \<Rightarrow> nat" where
  "byte_at s i = of_char (s ! i)"

text \<open>
  \<^verbatim>\<open>utf8.DecodeRuneInString\<close>: the rune and its width in bytes; \<open>(RuneError, 1)\<close>
  for a byte that is not the start of a well-formed sequence. The masks and shifts of the
  source are written as \<open>mod\<close> and multiplication (the bit fields do not overlap).
\<close>

definition DecodeRuneInString :: "string \<Rightarrow> nat \<times> nat" where
  "DecodeRuneInString s =
    (if length s < 1 then (RuneError, 0)
     else let s0 = byte_at s 0 in
       if s0 < RuneSelf then (s0, 1)
       else case first_info s0 of
         None \<Rightarrow> (RuneError, 1)
       | Some (sz, lo, hi) \<Rightarrow>
           if length s < sz then (RuneError, 1)
           else let s1 = byte_at s 1 in
             if s1 < lo \<or> hi < s1 then (RuneError, 1)
             else if sz \<le> 2 then ((s0 mod 32) * 64 + s1 mod 64, 2)
             else let s2 = byte_at s 2 in
               if s2 < 0x80 \<or> 0xBF < s2 then (RuneError, 1)
               else if sz \<le> 3 then ((s0 mod 16) * 4096 + (s1 mod 64) * 64 + s2 mod 64, 3)
               else let s3 = byte_at s 3 in
                 if s3 < 0x80 \<or> 0xBF < s3 then (RuneError, 1)
                 else ((s0 mod 8) * 262144 + (s1 mod 64) * 4096 + (s2 mod 64) * 64
                        + s3 mod 64, 4))"

text \<open>The width of the rune at the head of a string, as the encoder's loop advances.\<close>

definition rune_width :: "string \<Rightarrow> nat" where
  "rune_width s = snd (DecodeRuneInString (take UTFMax s))"

lemma rune_width_pos: "s \<noteq> [] \<Longrightarrow> 0 < rune_width s"
  by (cases s)
     (auto simp: rune_width_def DecodeRuneInString_def UTFMax_def Let_def
           split: option.splits prod.splits)

subsection \<open>Package encoding/json: strings\<close>

definition hex :: string where "hex = ''0123456789abcdef''"

definition backslash :: char where "backslash = CHR 0x5C"
definition dquote :: char where "dquote = CHR 0x22"

text \<open>\<^verbatim>\<open>htmlSafeSet\<close>: the ASCII bytes written as they are.\<close>

definition htmlSafeSet :: "char \<Rightarrow> bool" where
  "htmlSafeSet b \<longleftrightarrow>
     0x20 \<le> (of_char b :: nat) \<and> (of_char b :: nat) < 0x80 \<and> b \<noteq> dquote \<and> b \<noteq> backslash
     \<and> b \<noteq> CHR ''<'' \<and> b \<noteq> CHR ''>'' \<and> b \<noteq> CHR ''&''"

text \<open>The \<^verbatim>\<open>switch b\<close> of \<^verbatim>\<open>appendString\<close> for an ASCII byte outside that set.\<close>

definition escape_byte :: "char \<Rightarrow> string" where
  "escape_byte b =
    (if b = backslash \<or> b = dquote then [backslash, b]
     else if b = CHR 0x08 then [backslash, CHR ''b'']
     else if b = CHR 0x0C then [backslash, CHR ''f'']
     else if b = CHR 0x0A then [backslash, CHR ''n'']
     else if b = CHR 0x0D then [backslash, CHR ''r'']
     else if b = CHR 0x09 then [backslash, CHR ''t'']
     else [backslash, CHR ''u'', CHR ''0'', CHR ''0'',
           hex ! (of_char b div 16), hex ! (of_char b mod 16)])"

text \<open>
  The loop of \<^verbatim>\<open>appendString\<close> (with \<^verbatim>\<open>escapeHTML\<close> set, as \<^verbatim>\<open>Marshal\<close>
  sets it), on the bytes from the current index on: an ASCII byte is copied or escaped; a
  byte that starts no well-formed sequence becomes the escape of U+FFFD; U+2028 and U+2029
  are escaped; any other rune is copied.
\<close>

function appendString_loop :: "string \<Rightarrow> string" where
  "appendString_loop [] = []"
| "appendString_loop (b # src) =
    (if (of_char b :: nat) < RuneSelf then
       (if htmlSafeSet b then [b] else escape_byte b) @ appendString_loop src
     else
       let (c, n) = DecodeRuneInString (take UTFMax (b # src)) in
       if c = RuneError \<and> n = 1 then
         (backslash # ''ufffd'') @ appendString_loop src
       else if c = 0x2028 \<or> c = 0x2029 then
         (backslash # ''u202'') @ [hex ! (c mod 16)] @ appendString_loop (drop n (b # src))
       else
         take n (b # src) @ appendString_loop (drop n (b # src)))"
  by pat_completeness auto

lemma DecodeRuneInString_width_pos:
  "DecodeRuneInString (take UTFMax (b # src)) = (c, n) \<Longrightarrow> 0 < n"
  using rune_width_pos [of "b # src"] by (simp add: rune_width_def)

termination appendString_loop
  by (relation "measure length") (auto dest: DecodeRuneInString_width_pos [OF sym])

definition appendString :: "string \<Rightarrow> string" where
  "appendString src = dquote # appendString_loop src @ [dquote]"

subsection \<open>Package strconv: integers in base 10\<close>

definition digit_char :: "nat \<Rightarrow> char" where
  "digit_char d = char_of (48 + d)"

fun formatBits :: "nat \<Rightarrow> string" where
  "formatBits n = (if n < 10 then [digit_char n] else formatBits (n div 10) @ [digit_char (n mod 10)])"

declare formatBits.simps [simp del]

definition AppendInt :: "int \<Rightarrow> string" where
  "AppendInt i = (if i < 0 then CHR ''-'' # formatBits (nat (- i)) else formatBits (nat i))"

subsection \<open>Package encoding/json: values\<close>

text \<open>The first error of a sequence of results, in order, or all the values.\<close>

fun first_error :: "(string + 'a) list \<Rightarrow> string + 'a list" where
  "first_error [] = Inr []"
| "first_error (Inl e # rs) = Inl e"
| "first_error (Inr x # rs) =
    (case first_error rs of Inl e \<Rightarrow> Inl e | Inr xs \<Rightarrow> Inr (x # xs))"

fun join_comma :: "string list \<Rightarrow> string" where
  "join_comma [] = []"
| "join_comma [x] = x"
| "join_comma (x # y # ys) = x @ CHR '','' # join_comma (y # ys)"

text \<open>
  The encoder of a value: \<open>Inl\<close> the text of the error, \<open>Inr\<close> the bytes. A map is
  written with its keys sorted bytewise (\<^verbatim>\<open>strings.Compare\<close>), an element after the
  other, so the error returned is the one of the first value, in that order, that cannot be
  encoded.
\<close>

fun encode :: "gvalue \<Rightarrow> string + string" where
  "encode VNil = Inr ''null''"
| "encode (VBool b) = Inr (if b then ''true'' else ''false'')"
| "encode (VInt i) = Inr (AppendInt i)"
| "encode (VString s) = Inr (appendString s)"
| "encode (VUnsupported e) = Inl e"
| "encode (VSlice xs) =
    (case first_error (map encode xs) of
       Inl e \<Rightarrow> Inl e
     | Inr bs \<Rightarrow> Inr (CHR ''['' # join_comma bs @ '']''))"
| "encode (VMap kvs) =
    (case first_error
            (map (\<lambda>kv. case encode (snd kv) of
                          Inl e \<Rightarrow> Inl e
                        | Inr b \<Rightarrow> Inr (appendString (fst kv) @ CHR '':'' # b))
                 (sort_key fst kvs)) of
       Inl e \<Rightarrow> Inl e
     | Inr bs \<Rightarrow> Inr (CHR ''{'' # join_comma bs @ ''}''))"

text \<open>\<^verbatim>\<open>json.Marshal(entry)\<close> for an entry of type \<^verbatim>\<open>Fields\<close>.\<close>

definition json_Marshal :: "Fields \<Rightarrow> string + string" where
  "json_Marshal entry = encode (VMap entry)"


section \<open>The logger and the program state\<close>

text \<open>
  A \<^verbatim>\<open>*Logger\<close>, a \<^verbatim>\<open>Fields\<close> map and a \<^verbatim>\<open>*log.Logger\<close> are references: the
  state holds a heap for each (the address of an object is its index), so that what a
  method changes through one reference is seen through every other. An \<^verbatim>\<open>io.Writer\<close>
  is \<open>None\<close>, the nil interface value (\<^verbatim>\<open>New(nil)\<close> and \<^verbatim>\<open>SetOutput(nil)\<close> are
  accepted), or \<open>Some w\<close>, the identity of a writer; what the package does to a writer is
  the sequence of its \<^verbatim>\<open>Write\<close> calls, recorded in \<open>written\<close> in order, with the
  bytes of each call. The mutex \<^verbatim>\<open>mu\<close> is not modelled: the model runs one call at a
  time, and every method that locks it unlocks it on return.
\<close>

type_synonym Writer = "nat option"

definition os_Stdout :: Writer where "os_Stdout = Some 1"

record Logger =
  level :: LogLevel
  logger :: nat
  fields' :: nat
  output' :: Writer
  timeFormat :: string

record state =
  loggers :: "Logger list"
  maps :: "Fields list"
  stdlogs :: "Writer list"
  written :: "(Writer \<times> string) list"
  ticks :: nat

text \<open>
  The clock: \<open>clk n layout\<close> is what \<^verbatim>\<open>time.Now().Format(layout)\<close> returns at the
  \<open>n\<close>-th reading of the clock; \<open>ticks\<close> counts the readings made.
\<close>

type_synonym Clock = "nat \<Rightarrow> string \<Rightarrow> string"

datatype panic_value = PanicString string | NilDereference

text \<open>How a call ends: it returns, it panics, or the process exits.\<close>

datatype 'a outcome =
    Returned state 'a
  | Panicked state panic_value
  | Exited state int

definition valid_logger :: "state \<Rightarrow> nat \<Rightarrow> bool" where
  "valid_logger s l \<longleftrightarrow> l < length (loggers s)"

text \<open>Reading a map through its reference; a nil map reads as the empty map.\<close>

definition map_at :: "state \<Rightarrow> nat \<Rightarrow> Fields" where
  "map_at s a = (if a < length (maps s) then maps s ! a else [])"

text \<open>\<^verbatim>\<open>make(Fields)\<close>: a new empty map, and its reference.\<close>

definition make_Fields :: "state \<Rightarrow> state \<times> nat" where
  "make_Fields s = (s\<lparr>maps := maps s @ [[]]\<rparr>, length (maps s))"

text \<open>\<^verbatim>\<open>m[k] = v\<close> through the reference \<open>a\<close>.\<close>

definition map_assign :: "nat \<Rightarrow> string \<times> gvalue \<Rightarrow> state \<Rightarrow> state" where
  "map_assign a kv s = s\<lparr>maps := (maps s)[a := AList.update (fst kv) (snd kv) (maps s ! a)]\<rparr>"

text \<open>\<^verbatim>\<open>func New(output io.Writer) *Logger\<close>\<close>

definition New :: "state \<Rightarrow> Writer \<Rightarrow> state \<times> nat" where
  "New s out =
    (let s1 = s\<lparr>stdlogs := stdlogs s @ [out]\<rparr>;
         (s2, m) = make_Fields s1
     in (s2\<lparr>loggers := loggers s2 @
              [\<lparr>level = LevelInfo, logger = length (stdlogs s), fields' = m,
                output' = out, timeFormat = ''2006-01-02 15:04:05''\<rparr>]\<rparr>,
         length (loggers s2)))"

text \<open>\<^verbatim>\<open>func (l *Logger) SetLevel(level LogLevel) *Logger\<close>\<close>

definition Logger_SetLevel :: "state \<Rightarrow> nat \<Rightarrow> LogLevel \<Rightarrow> nat outcome" where
  "Logger_SetLevel s l lvl =
    (if \<not> valid_logger s l then Panicked s NilDereference
     else Returned (s\<lparr>loggers := (loggers s)[l := (loggers s ! l)\<lparr>level := lvl\<rparr>]\<rparr>) l)"

text \<open>\<^verbatim>\<open>func (l *Logger) SetOutput(output io.Writer) *Logger\<close>\<close>

definition Logger_SetOutput :: "state \<Rightarrow> nat \<Rightarrow> Writer \<Rightarrow> nat outcome" where
  "Logger_SetOutput s l out =
    (if \<not> valid_logger s l then Panicked s NilDereference
     else
       let s1 = s\<lparr>loggers := (loggers s)[l := (loggers s ! l)\<lparr>output' := out\<rparr>]\<rparr>;
           g = logger (loggers s ! l)
       in if \<not> g < length (stdlogs s1) then Panicked s1 NilDereference
          else Returned (s1\<lparr>stdlogs := (stdlogs s1)[g := out]\<rparr>) l)"

text \<open>\<^verbatim>\<open>func (l *Logger) SetTimeFormat(format string) *Logger\<close>\<close>

definition Logger_SetTimeFormat :: "state \<Rightarrow> nat \<Rightarrow> string \<Rightarrow> nat outcome" where
  "Logger_SetTimeFormat s l format =
    (if \<not> valid_logger s l then Panicked s NilDereference
     else Returned (s\<lparr>loggers := (loggers s)[l := (loggers s ! l)\<lparr>timeFormat := format\<rparr>]\<rparr>) l)"

text \<open>
  \<^verbatim>\<open>func (l *Logger) clone() *Logger\<close>: a new map, the loop that copies the receiver's
  entries into it through its reference, and a new \<^verbatim>\<open>Logger\<close> that holds it. Its
  callers have dereferenced \<open>l\<close> already.
\<close>

definition Logger_clone :: "state \<Rightarrow> nat \<Rightarrow> state \<times> nat" where
  "Logger_clone s l =
    (let (s1, m) = make_Fields s;
         s2 = fold (map_assign m) (map_at s1 (fields' (loggers s1 ! l))) s1
     in (s2\<lparr>loggers := loggers s2 @
              [\<lparr>level = level (loggers s2 ! l), logger = logger (loggers s2 ! l), fields' = m,
                output' = output' (loggers s2 ! l), timeFormat = timeFormat (loggers s2 ! l)\<rparr>]\<rparr>,
         length (loggers s2)))"

text \<open>\<^verbatim>\<open>func (l *Logger) AddField(key string, value interface{}) *Logger\<close>\<close>

definition Logger_AddField :: "state \<Rightarrow> nat \<Rightarrow> string \<Rightarrow> gvalue \<Rightarrow> nat outcome" where
  "Logger_AddField s l key val =
    (if \<not> valid_logger s l then Panicked s NilDereference
     else
       let (s1, newLogger) = Logger_clone s l
       in Returned (map_assign (fields' (loggers s1 ! newLogger)) (key, val) s1) newLogger)"

text \<open>\<^verbatim>\<open>func (l *Logger) AddFields(fields Fields) *Logger\<close>\<close>

definition Logger_AddFields :: "state \<Rightarrow> nat \<Rightarrow> Fields \<Rightarrow> nat outcome" where
  "Logger_AddFields s l fs =
    (if \<not> valid_logger s l then Panicked s NilDereference
     else
       let (s1, newLogger) = Logger_clone s l
       in Returned (fold (map_assign (fields' (loggers s1 ! newLogger))) fs s1) newLogger)"

text \<open>The fallback line of \<^verbatim>\<open>log\<close>: \<^verbatim>\<open>fmt.Sprintf\<close> with two \<^verbatim>\<open>%s\<close> verbs.\<close>

definition fallback_line :: "string \<Rightarrow> string \<Rightarrow> string" where
  \<open>fallback_line err t =
     ''{"level": "ERROR","message": "Failed to marshal log entry","error": "'' @ err
     @ ''","time": "'' @ t @ ''"}''\<close>

text \<open>
  \<^verbatim>\<open>fmt.Fprintln(w, s)\<close>: one \<^verbatim>\<open>Write\<close> of the string and a newline; what the
  writer returns is dropped. On the nil writer the call of \<^verbatim>\<open>Write\<close> is a nil
  dereference: a run-time panic, and nothing is written.
\<close>

definition Fprintln :: "Writer \<Rightarrow> string \<Rightarrow> state \<Rightarrow> unit outcome" where
  "Fprintln w line s =
    (case w of
       None \<Rightarrow> Panicked s NilDereference
     | Some i \<Rightarrow> Returned (s\<lparr>written := written s @ [(w, line @ [CHR 0x0A])]\<rparr>) ())"

definition time_Now_Format :: "Clock \<Rightarrow> string \<Rightarrow> state \<Rightarrow> string \<times> state" where
  "time_Now_Format clk layout s = (clk (ticks s) layout, s\<lparr>ticks := Suc (ticks s)\<rparr>)"

text \<open>The map literal of \<^verbatim>\<open>log\<close> and the loop that adds the context fields.\<close>

definition log_entry :: "LogLevel \<Rightarrow> string \<Rightarrow> string \<Rightarrow> Fields \<Rightarrow> Fields" where
  "log_entry lvl msg t fs =
     fold (\<lambda>kv entry. AList.update (fst kv) (snd kv) entry) fs
       [(''level'', VString (LogLevel_String lvl)), (''message'', VString msg),
        (''time'', VString t)]"

text \<open>\<^verbatim>\<open>func (l *Logger) log(level LogLevel, msg string)\<close>\<close>

definition Logger_log :: "Clock \<Rightarrow> state \<Rightarrow> nat \<Rightarrow> LogLevel \<Rightarrow> string \<Rightarrow> unit outcome" where
  "Logger_log clk s l lvl msg =
    (if \<not> valid_logger s l then Panicked s NilDereference
     else
       let L = loggers s ! l in
       if lvl < level L then Returned s ()
       else
         let (t, s1) = time_Now_Format clk (timeFormat L) s;
             entry = log_entry lvl msg t (map_at s1 (fields' L))
         in case json_Marshal entry of
              Inl err \<Rightarrow>
                let (t', s2) = time_Now_Format clk (timeFormat L) s1;
                    logMsg = fallback_line err t'
                in Fprintln (output' L) logMsg s2
            | Inr jsonData \<Rightarrow> Fprintln (output' L) jsonData s1)"

text \<open>The emission methods, one per severity.\<close>

definition Logger_Debug :: "Clock \<Rightarrow> state \<Rightarrow> nat \<Rightarrow> string \<Rightarrow> unit outcome" where
  "Logger_Debug clk s l msg = Logger_log clk s l LevelDebug msg"

definition Logger_Info :: "Clock \<Rightarrow> state \<Rightarrow> nat \<Rightarrow> string \<Rightarrow> unit outcome" where
  "Logger_Info clk s l msg = Logger_log clk s l LevelInfo msg"

definition Logger_Warn :: "Clock \<Rightarrow> state \<Rightarrow> nat \<Rightarrow> string \<Rightarrow> unit outcome" where
  "Logger_Warn clk s l msg = Logger_log clk s l LevelWarn msg"

definition Logger_Error :: "Clock \<Rightarrow> state \<Rightarrow> nat \<Rightarrow> string \<Rightarrow> unit outcome" where
  "Logger_Error clk s l msg = Logger_log clk s l LevelError msg"

text \<open>\<^verbatim>\<open>Fatal\<close>: the log, then \<^verbatim>\<open>os.Exit(1)\<close>.\<close>

definition Logger_Fatal :: "Clock \<Rightarrow> state \<Rightarrow> nat \<Rightarrow> string \<Rightarrow> unit outcome" where
  "Logger_Fatal clk s l msg =
    (case Logger_log clk s l LevelFatal msg of
       Returned s1 u \<Rightarrow> Exited s1 1
     | other \<Rightarrow> other)"

text \<open>\<^verbatim>\<open>Panic\<close>: the log, then \<^verbatim>\<open>panic(msg)\<close>.\<close>

definition Logger_Panic :: "Clock \<Rightarrow> state \<Rightarrow> nat \<Rightarrow> string \<Rightarrow> unit outcome" where
  "Logger_Panic clk s l msg =
    (case Logger_log clk s l LevelPanic msg of
       Returned s1 u \<Rightarrow> Panicked s1 (PanicString msg)
     | other \<Rightarrow> other)"


section \<open>The default logger and the package-level functions (logger.go, lines 183-197)\<close>

text \<open>
  \<^verbatim>\<open>var defaultLogger = New(os.Stdout)\<close> runs when the program starts, on the empty
  heaps: \<open>program_start\<close> is the state it leaves and the reference it returns. The
  variable is never assigned again.
\<close>

definition program_start :: "state \<times> nat" where
  "program_start =
     New \<lparr>loggers = [], maps = [], stdlogs = [], written = [], ticks = 0\<rparr> os_Stdout"

definition defaultLogger :: nat where
  "defaultLogger = snd program_start"

definition SetLevel :: "state \<Rightarrow> LogLevel \<Rightarrow> nat outcome" where
  "SetLevel s lvl = Logger_SetLevel s defaultLogger lvl"
definition SetOutput :: "state \<Rightarrow> Writer \<Rightarrow> nat outcome" where
  "SetOutput s w = Logger_SetOutput s defaultLogger w"
definition SetTimeFormat :: "state \<Rightarrow> string \<Rightarrow> nat outcome" where
  "SetTimeFormat s format = Logger_SetTimeFormat s defaultLogger format"
definition AddField :: "state \<Rightarrow> string \<Rightarrow> gvalue \<Rightarrow> nat outcome" where
  "AddField s key val = Logger_AddField s defaultLogger key val"
definition AddFields :: "state \<Rightarrow> Fields \<Rightarrow> nat outcome" where
  "AddFields s fs = Logger_AddFields s defaultLogger fs"
definition Debug :: "Clock \<Rightarrow> state \<Rightarrow> string \<Rightarrow> unit outcome" where
  "Debug clk s msg = Logger_Debug clk s defaultLogger msg"
definition Info :: "Clock \<Rightarrow> state \<Rightarrow> string \<Rightarrow> unit outcome" where
  "Info clk s msg = Logger_Info clk s defaultLogger msg"
definition Warn :: "Clock \<Rightarrow> state \<Rightarrow> string \<Rightarrow> unit outcome" where
  "Warn clk s msg = Logger_Warn clk s defaultLogger msg"
definition Error :: "Clock \<Rightarrow> state \<Rightarrow> string \<Rightarrow> unit outcome" where
  "Error clk s msg = Logger_Error clk s defaultLogger msg"
definition Fatal :: "Clock \<Rightarrow> state \<Rightarrow> string \<Rightarrow> unit outcome" where
  "Fatal clk s msg = Logger_Fatal clk s defaultLogger msg"
definition Panic :: "Clock \<Rightarrow> state \<Rightarrow> string \<Rightarrow> unit outcome" where
  "Panic clk s msg = Logger_Panic clk s defaultLogger msg"


section \<open>Package time: the numeric verbs of a layout\<close>

text \<open>
  What \<^verbatim>\<open>Time.Format\<close> writes for a layout made of the verbs \<^verbatim>\<open>2006\<close>,
  \<^verbatim>\<open>01\<close>, \<^verbatim>\<open>02\<close>, \<^verbatim>\<open>15\<close>, \<^verbatim>\<open>04\<close>, \<^verbatim>\<open>05\<close> and of literal text.
  \<open>None\<close> stands for a layout with a character that may start another verb (a month or
  weekday name, a zone, a fraction of a second, a 12-hour clock): those are outside this
  model, and the logger's methods take the clock's rendering as given (\<open>Clock\<close>).
\<close>

record Time =
  Year :: int
  Month :: nat
  Day :: nat
  Hour :: nat
  Minute :: nat
  Second :: nat

text \<open>
  \<^verbatim>\<open>appendInt\<close>: the decimal digits, padded with zeros to the width.
\<close>

definition appendInt :: "int \<Rightarrow> nat \<Rightarrow> string" where
  "appendInt x width =
    (let ds = formatBits (nat \<bar>x\<bar>)
     in (if x < 0 then ''-'' else []) @ replicate (width - length ds) (CHR ''0'') @ ds)"

fun time_Format :: "Time \<Rightarrow> string \<Rightarrow> string option" where
  "time_Format t [] = Some []"
| "time_Format t (c # cs) =
    (if take 4 (c # cs) = ''2006'' then
       map_option ((@) (appendInt (Year t) 4)) (time_Format t (drop 3 cs))
     else if take 2 (c # cs) = ''01'' then
       map_option ((@) (appendInt (int (Month t)) 2)) (time_Format t (drop 1 cs))
     else if take 2 (c # cs) = ''02'' then
       map_option ((@) (appendInt (int (Day t)) 2)) (time_Format t (drop 1 cs))
     else if take 2 (c # cs) = ''15'' then
       map_option ((@) (appendInt (int (Hour t)) 2)) (time_Format t (drop 1 cs))
     else if take 2 (c # cs) = ''04'' then
       map_option ((@) (appendInt (int (Minute t)) 2)) (time_Format t (drop 1 cs))
     else if take 2 (c # cs) = ''05'' then
       map_option ((@) (appendInt (int (Second t)) 2)) (time_Format t (drop 1 cs))
     else if c \<in> set ''JM012345_PpZ.,'' \<or> take 3 (c # cs) = ''-07'' then None
     else map_option ((#) c) (time_Format t cs))"

text \<open>
  A reading of the clock as the calendar has it, in the years 0 to 9999.
\<close>

definition valid_Time :: "Time \<Rightarrow> bool" where
  "valid_Time t \<longleftrightarrow> 0 \<le> Year t \<and> Year t \<le> 9999 \<and> 1 \<le> Month t \<and> Month t \<le> 12
     \<and> 1 \<le> Day t \<and> Day t \<le> 31 \<and> Hour t < 24 \<and> Minute t < 60 \<and> Second t < 60"

definition two_digits :: "nat \<Rightarrow> string" where
  "two_digits n = [digit_char (n div 10), digit_char (n mod 10)]"

definition four_digits :: "nat \<Rightarrow> string" where
  "four_digits n = [digit_char (n div 1000), digit_char (n div 100 mod 10),
     digit_char (n div 10 mod 10), digit_char (n mod 10)]"


section \<open>JSON texts\<close>

text \<open>
  What it is for a line to be valid JSON, after RFC 8259: a lexer from bytes to tokens
  (strings with their escapes decoded, \<^verbatim>\<open>\\uXXXX\<close> to UTF-8, surrogate pairs
  joined; numbers kept as their literal) and a stack machine from tokens to a value. White
  space is allowed around every token; an object keeps its members in the order of the
  text. \<open>json_parse\<close> is \<open>None\<close> on a text that is not valid JSON.
\<close>

datatype json =
    JNull
  | JBool bool
  | JNumber string
  | JString string
  | JArray "json list"
  | JObject "(string \<times> json) list"

datatype token =
    TLBrace | TRBrace | TLBracket | TRBracket | TColon | TComma
  | TString string | TNumber string | TTrue | TFalse | TNull

definition is_ws :: "char \<Rightarrow> bool" where
  "is_ws c \<longleftrightarrow> c = CHR 0x20 \<or> c = CHR 0x09 \<or> c = CHR 0x0A \<or> c = CHR 0x0D"

definition is_digit :: "char \<Rightarrow> bool" where
  "is_digit c \<longleftrightarrow> 48 \<le> (of_char c :: nat) \<and> (of_char c :: nat) \<le> 57"

definition hex_value :: "char \<Rightarrow> nat option" where
  "hex_value c =
    (let n = of_char c in
     if 48 \<le> n \<and> n \<le> 57 then Some (n - 48)
     else if 97 \<le> n \<and> n \<le> 102 then Some (n - 87)
     else if 65 \<le> n \<and> n \<le> 70 then Some (n - 55)
     else None)"

definition hex4 :: "string \<Rightarrow> nat option" where
  "hex4 s =
    (case s of
       a # b # c # d # r \<Rightarrow>
         (case (hex_value a, hex_value b, hex_value c, hex_value d) of
            (Some x3, Some x2, Some x1, Some x0) \<Rightarrow> Some (x3 * 4096 + x2 * 256 + x1 * 16 + x0)
          | _ \<Rightarrow> None)
     | _ \<Rightarrow> None)"

definition encode_rune :: "nat \<Rightarrow> string" where
  "encode_rune n =
    (if n < 0x80 then [char_of n]
     else if n < 0x800 then [char_of (0xC0 + n div 64), char_of (0x80 + n mod 64)]
     else if (0xD800 \<le> n \<and> n \<le> 0xDFFF) \<or> 0x10FFFF < n then
       [CHR 0xEF, CHR 0xBF, CHR 0xBD]
     else if n < 0x10000 then
       [char_of (0xE0 + n div 4096), char_of (0x80 + n div 64 mod 64), char_of (0x80 + n mod 64)]
     else
       [char_of (0xF0 + n div 262144), char_of (0x80 + n div 4096 mod 64),
        char_of (0x80 + n div 64 mod 64), char_of (0x80 + n mod 64)])"

definition unescape :: "char \<Rightarrow> char option" where
  "unescape e =
    (if e = dquote \<or> e = backslash \<or> e = CHR ''/'' then Some e
     else if e = CHR ''b'' then Some (CHR 0x08)
     else if e = CHR ''f'' then Some (CHR 0x0C)
     else if e = CHR ''n'' then Some (CHR 0x0A)
     else if e = CHR ''r'' then Some (CHR 0x0D)
     else if e = CHR ''t'' then Some (CHR 0x09)
     else None)"

definition prepend :: "string \<Rightarrow> (string \<times> string) option \<Rightarrow> (string \<times> string) option" where
  "prepend p r = map_option (\<lambda>(s, rest). (p @ s, rest)) r"

definition low_surrogate :: "string \<Rightarrow> nat option" where
  "low_surrogate s =
    (if take 2 s = [backslash, CHR ''u''] then
       (case hex4 (drop 2 s) of
          Some m \<Rightarrow> if 0xDC00 \<le> m \<and> m \<le> 0xDFFF then Some m else None
        | None \<Rightarrow> None)
     else None)"

text \<open>
  The characters of a string after its opening quote: the string and what follows it.
\<close>

fun lex_string :: "string \<Rightarrow> (string \<times> string) option" where
  "lex_string [] = None"
| "lex_string (c # cs) =
    (if c = dquote then Some ([], cs)
     else if c = backslash then
       (case cs of
          [] \<Rightarrow> None
        | e # es \<Rightarrow>
            if e = CHR ''u'' then
              (case hex4 es of
                 None \<Rightarrow> None
               | Some n \<Rightarrow>
                   (case (if 0xD800 \<le> n \<and> n \<le> 0xDBFF then low_surrogate (drop 4 es) else None) of
                      Some m \<Rightarrow>
                        prepend (encode_rune (0x10000 + (n - 0xD800) * 1024 + (m - 0xDC00)))
                          (lex_string (drop 10 es))
                    | None \<Rightarrow> prepend (encode_rune n) (lex_string (drop 4 es))))
            else
              (case unescape e of
                 None \<Rightarrow> None
               | Some ch \<Rightarrow> prepend [ch] (lex_string es)))
     else if (of_char c :: nat) < 0x20 then None
     else prepend [c] (lex_string cs))"

definition lex_frac :: "string \<Rightarrow> (string \<times> string) option" where
  "lex_frac s =
    (case s of
       [] \<Rightarrow> Some ([], [])
     | c # r \<Rightarrow>
         if c = CHR ''.'' then
           (if takeWhile is_digit r = [] then None
            else Some (c # takeWhile is_digit r, dropWhile is_digit r))
         else Some ([], s))"

definition lex_sign :: "string \<Rightarrow> string \<times> string" where
  "lex_sign s =
    (case s of
       [] \<Rightarrow> ([], [])
     | c # r \<Rightarrow> if c = CHR ''+'' \<or> c = CHR ''-'' then ([c], r) else ([], s))"

definition lex_exp :: "string \<Rightarrow> (string \<times> string) option" where
  "lex_exp s =
    (case s of
       [] \<Rightarrow> Some ([], [])
     | c # r \<Rightarrow>
         if c = CHR ''e'' \<or> c = CHR ''E'' then
           (let (sg, r1) = lex_sign r in
            if takeWhile is_digit r1 = [] then None
            else Some (c # sg @ takeWhile is_digit r1, dropWhile is_digit r1))
         else Some ([], s))"

definition lex_minus :: "string \<Rightarrow> string \<times> string" where
  "lex_minus s =
    (case s of
       [] \<Rightarrow> ([], [])
     | c # r \<Rightarrow> if c = CHR ''-'' then ([c], r) else ([], s))"

definition lex_number :: "string \<Rightarrow> (string \<times> string) option" where
  "lex_number s =
    (let (minus, s1) = lex_minus s;
         ds = takeWhile is_digit s1
     in if ds = [] \<or> (hd ds = CHR ''0'' \<and> 1 < length ds) then None
        else case lex_frac (dropWhile is_digit s1) of
               None \<Rightarrow> None
             | Some (frac, s3) \<Rightarrow>
                 (case lex_exp s3 of
                    None \<Rightarrow> None
                  | Some (ex, s4) \<Rightarrow> Some (minus @ ds @ frac @ ex, s4)))"

text \<open>
  A lexed string or number leaves less input than it was given.
\<close>

lemma prepend_length: "prepend p r = Some (s, rest) \<Longrightarrow> \<exists>s'. r = Some (s', rest)"
  by (cases r) (auto simp: prepend_def)

lemma lex_string_length: "lex_string cs = Some (str, rest) \<Longrightarrow> length rest < length cs"
proof (induction cs arbitrary: str rest rule: lex_string.induct)
  case 1
  then show ?case by simp
next
  case (2 c cs)
  show ?case
  proof (cases "c = dquote")
    case True
    with 2(5) show ?thesis by simp
  next
    case nq: False
    show ?thesis
    proof (cases "c = backslash")
      case False
      with nq 2(5) obtain s' where "lex_string cs = Some (s', rest)"
        by (auto split: if_splits dest: prepend_length)
      with 2(4) [OF nq False] 2(5) nq False show ?thesis
        by (auto split: if_splits)
    next
      case True
      then obtain e es where cs: "cs = e # es"
        using 2(5) nq by (cases cs) auto
      show ?thesis
      proof (cases "e = CHR ''u''")
        case False
        with True nq cs 2(5) obtain ch s' where "unescape e = Some ch" "lex_string es = Some (s', rest)"
          by (auto split: option.splits dest: prepend_length)
        with 2(3) [OF nq True cs False] show ?thesis using cs by fastforce
      next
        case u: True
        with True nq cs 2(5) obtain n where n: "hex4 es = Some n"
          by (auto split: option.splits)
        show ?thesis
        proof (cases "if 0xD800 \<le> n \<and> n \<le> 0xDBFF then low_surrogate (drop 4 es) else None")
          case None
          with True nq cs 2(5) u n obtain s' where "lex_string (drop 4 es) = Some (s', rest)"
            by (auto split: option.splits dest: prepend_length)
          with 2(1) [OF nq True cs u n None] show ?thesis using cs by fastforce
        next
          case (Some m)
          with True nq cs 2(5) u n obtain s' where "lex_string (drop 10 es) = Some (s', rest)"
            by (auto split: option.splits dest: prepend_length)
          with 2(2) [OF nq True cs u n Some] show ?thesis using cs by fastforce
        qed
      qed
    qed
  qed
qed

lemma lex_frac_length:
  assumes "lex_frac s = Some (f, rest)"
  shows "length rest \<le> length s"
proof (cases s)
  case Nil
  with assms show ?thesis by (simp add: lex_frac_def)
next
  case (Cons c r)
  show ?thesis
  proof (cases "c = CHR ''.''")
    case True
    with Cons assms have "rest = dropWhile is_digit r"
      by (cases "takeWhile is_digit r = []") (simp_all add: lex_frac_def)
    then show ?thesis using Cons length_dropWhile_le [of is_digit r] by simp
  next
    case False
    with Cons assms show ?thesis by (simp add: lex_frac_def)
  qed
qed

lemma lex_sign_length:
  assumes "lex_sign s = (sg, rest)"
  shows "length rest \<le> length s"
proof (cases s)
  case Nil
  with assms show ?thesis by (simp add: lex_sign_def)
next
  case (Cons c r)
  with assms show ?thesis
    by (cases "c = CHR ''+'' \<or> c = CHR ''-''") (auto simp: lex_sign_def)
qed

lemma lex_exp_length:
  assumes "lex_exp s = Some (f, rest)"
  shows "length rest \<le> length s"
proof (cases s)
  case Nil
  with assms show ?thesis by (simp add: lex_exp_def)
next
  case (Cons c r)
  show ?thesis
  proof (cases "c = CHR ''e'' \<or> c = CHR ''E''")
    case True
    obtain sg r1 where sg: "lex_sign r = (sg, r1)" by (cases "lex_sign r")
    from True Cons assms sg have "rest = dropWhile is_digit r1"
      by (cases "takeWhile is_digit r1 = []") (auto simp: lex_exp_def)
    then show ?thesis
      using Cons length_dropWhile_le [of is_digit r1] lex_sign_length [OF sg] by simp
  next
    case False
    with Cons assms show ?thesis by (auto simp: lex_exp_def)
  qed
qed

lemma dropWhile_shorter: "takeWhile P xs \<noteq> [] \<Longrightarrow> length (dropWhile P xs) < length xs"
proof (cases xs)
  case Nil
  then show "takeWhile P xs \<noteq> [] \<Longrightarrow> ?thesis" by simp
next
  case (Cons x r)
  assume "takeWhile P xs \<noteq> []"
  with Cons have "P x" by (cases "P x") simp_all
  with Cons show ?thesis using length_dropWhile_le [of P r] by simp
qed

lemma lex_minus_length:
  assumes "lex_minus s = (m, rest)"
  shows "length rest \<le> length s"
proof (cases s)
  case Nil
  with assms show ?thesis by (simp add: lex_minus_def)
next
  case (Cons c r)
  with assms show ?thesis
    by (cases "c = CHR ''-''") (auto simp: lex_minus_def)
qed

lemma lex_number_length:
  assumes "lex_number s = Some (lit, rest)"
  shows "length rest < length s"
proof -
  obtain minus s1 where ms: "lex_minus s = (minus, s1)" by (cases "lex_minus s")
  let ?ds = "takeWhile is_digit s1"
  have ne: "?ds \<noteq> []"
    using assms ms by (cases "?ds = []") (simp_all add: lex_number_def)
  have ok: "\<not> (?ds = [] \<or> (hd ?ds = CHR ''0'' \<and> 1 < length ?ds))"
    using assms ms
    by (cases "?ds = [] \<or> (hd ?ds = CHR ''0'' \<and> 1 < length ?ds)")
       (simp_all add: lex_number_def)
  obtain frac s3 where f: "lex_frac (dropWhile is_digit s1) = Some (frac, s3)"
    using assms ms ok
    by (cases "lex_frac (dropWhile is_digit s1)") (auto simp: lex_number_def)
  have e: "\<exists>ex. lex_exp s3 = Some (ex, rest)"
    using assms ms ok f by (cases "lex_exp s3") (auto simp: lex_number_def)
  then obtain ex where e: "lex_exp s3 = Some (ex, rest)" by blast
  from dropWhile_shorter [OF ne] lex_frac_length [OF f] lex_exp_length [OF e]
    lex_minus_length [OF ms]
  show ?thesis by linarith
qed

lemma lex_string_shorter:
  "lex_string cs = Some p \<Longrightarrow> (str, rest) = p \<Longrightarrow> length rest < Suc (length cs)"
  using lex_string_length [of cs str rest] by simp

lemma lex_number_shorter:
  "lex_number (c # cs) = Some p \<Longrightarrow> (lit, rest) = p \<Longrightarrow> length rest < Suc (length cs)"
  using lex_number_length [of "c # cs" lit rest] by simp

function tokenize :: "string \<Rightarrow> token list option" where
  "tokenize [] = Some []"
| "tokenize (c # cs) =
    (if is_ws c then tokenize cs
     else if c = CHR ''{'' then map_option ((#) TLBrace) (tokenize cs)
     else if c = CHR ''}'' then map_option ((#) TRBrace) (tokenize cs)
     else if c = CHR ''['' then map_option ((#) TLBracket) (tokenize cs)
     else if c = CHR '']'' then map_option ((#) TRBracket) (tokenize cs)
     else if c = CHR '':'' then map_option ((#) TColon) (tokenize cs)
     else if c = CHR '','' then map_option ((#) TComma) (tokenize cs)
     else if c = dquote then
       (case lex_string cs of
          None \<Rightarrow> None
        | Some (str, rest) \<Rightarrow> map_option ((#) (TString str)) (tokenize rest))
     else if take 4 (c # cs) = ''true'' then map_option ((#) TTrue) (tokenize (drop 3 cs))
     else if take 5 (c # cs) = ''false'' then map_option ((#) TFalse) (tokenize (drop 4 cs))
     else if take 4 (c # cs) = ''null'' then map_option ((#) TNull) (tokenize (drop 3 cs))
     else if c = CHR ''-'' \<or> is_digit c then
       (case lex_number (c # cs) of
          None \<Rightarrow> None
        | Some (lit, rest) \<Rightarrow> map_option ((#) (TNumber lit)) (tokenize rest))
     else None)"
  by pat_completeness auto

termination tokenize
  apply (relation "measure length")
  apply (simp_all (no_asm_simp))
  apply (erule (1) lex_string_shorter)
  apply (erule (1) lex_number_shorter)
  done

text \<open>
  The parser: a stack of the arrays and objects that are open, and what may come next.
\<close>

datatype frame =
    FArray "json list"
  | FObject "(string \<times> json) list"
  | FMember "(string \<times> json) list" string

datatype pstate =
    PValue "frame list"
  | PFirstElem "frame list"
  | PFirstKey "frame list"
  | PKey "frame list"
  | PColon "frame list"
  | PAfter "frame list"
  | PDone json

fun put_value :: "json \<Rightarrow> frame list \<Rightarrow> pstate option" where
  "put_value v [] = Some (PDone v)"
| "put_value v (FArray els # st) = Some (PAfter (FArray (v # els) # st))"
| "put_value v (FMember ms k # st) = Some (PAfter (FObject ((k, v) # ms) # st))"
| "put_value v (FObject ms # st) = None"

fun step_value :: "frame list \<Rightarrow> token \<Rightarrow> pstate option" where
  "step_value st TLBracket = Some (PFirstElem (FArray [] # st))"
| "step_value st TLBrace = Some (PFirstKey (FObject [] # st))"
| "step_value st (TString s) = put_value (JString s) st"
| "step_value st (TNumber n) = put_value (JNumber n) st"
| "step_value st TTrue = put_value (JBool True) st"
| "step_value st TFalse = put_value (JBool False) st"
| "step_value st TNull = put_value JNull st"
| "step_value st _ = None"

fun step_key :: "frame list \<Rightarrow> token \<Rightarrow> pstate option" where
  "step_key (FObject ms # st) (TString k) = Some (PColon (FMember ms k # st))"
| "step_key _ _ = None"

fun close_array :: "frame list \<Rightarrow> pstate option" where
  "close_array (FArray els # st) = put_value (JArray (rev els)) st"
| "close_array _ = None"

fun close_object :: "frame list \<Rightarrow> pstate option" where
  "close_object (FObject ms # st) = put_value (JObject (rev ms)) st"
| "close_object _ = None"

fun step_after :: "frame list \<Rightarrow> token \<Rightarrow> pstate option" where
  "step_after (FArray els # st) TComma = Some (PValue (FArray els # st))"
| "step_after (FObject ms # st) TComma = Some (PKey (FObject ms # st))"
| "step_after st TRBracket = close_array st"
| "step_after st TRBrace = close_object st"
| "step_after _ _ = None"

fun step :: "pstate \<Rightarrow> token \<Rightarrow> pstate option" where
  "step (PValue st) tok = step_value st tok"
| "step (PFirstElem st) tok = (if tok = TRBracket then close_array st else step_value st tok)"
| "step (PFirstKey st) tok = (if tok = TRBrace then close_object st else step_key st tok)"
| "step (PKey st) tok = step_key st tok"
| "step (PColon st) tok = (if tok = TColon then Some (PValue st) else None)"
| "step (PAfter st) tok = step_after st tok"
| "step (PDone v) tok = None"

fun run :: "pstate \<Rightarrow> token list \<Rightarrow> pstate option" where
  "run p [] = Some p"
| "run p (t # ts) = (case step p t of None \<Rightarrow> None | Some p' \<Rightarrow> run p' ts)"

definition parse_tokens :: "token list \<Rightarrow> json option" where
  "parse_tokens ts = (case run (PValue []) ts of Some (PDone v) \<Rightarrow> Some v | _ \<Rightarrow> None)"

definition json_parse :: "string \<Rightarrow> json option" where
  "json_parse s = (case tokenize s of None \<Rightarrow> None | Some ts \<Rightarrow> parse_tokens ts)"


section \<open>Field sets and well-formed states\<close>

text \<open>
  The field set of a logger is the map its \<^verbatim>\<open>fields\<close> reference points to. A state
  is well formed when every logger's reference points into the heap of maps and every map
  has distinct keys; the states the package builds are well formed.
\<close>

definition field_set :: "state \<Rightarrow> nat \<Rightarrow> string \<rightharpoonup> gvalue" where
  "field_set s l = map_of (map_at s (fields' (loggers s ! l)))"

definition wf_state :: "state \<Rightarrow> bool" where
  "wf_state s \<longleftrightarrow>
     list_all (\<lambda>L. fields' L < length (maps s)) (loggers s) \<and> list_all distinct_keys (maps s)"

text \<open>
  A \<^verbatim>\<open>range\<close> loop that assigns every entry of \<open>src\<close> into \<open>dst\<close>.
\<close>

definition assign_all :: "Fields \<Rightarrow> Fields \<Rightarrow> Fields" where
  "assign_all src dst = fold (\<lambda>kv m. AList.update (fst kv) (snd kv) m) src dst"

text \<open>
  The state after a derivation from the logger \<open>l\<close>: one new logger with the
  receiver's threshold, sink and format, and nothing that existed is changed.
\<close>

definition derived :: "state \<Rightarrow> nat \<Rightarrow> state \<Rightarrow> nat \<Rightarrow> bool" where
  "derived s l s' l' \<longleftrightarrow>
     wf_state s' \<and> l' = length (loggers s) \<and> valid_logger s' l'
     \<and> level (loggers s' ! l') = level (loggers s ! l)
     \<and> logger (loggers s' ! l') = logger (loggers s ! l)
     \<and> output' (loggers s' ! l') = output' (loggers s ! l)
     \<and> timeFormat (loggers s' ! l') = timeFormat (loggers s ! l)
     \<and> take (length (loggers s)) (loggers s') = loggers s
     \<and> take (length (maps s)) (maps s') = maps s
     \<and> stdlogs s' = stdlogs s \<and> written s' = written s \<and> ticks s' = ticks s"



section \<open>Sample states\<close>

text \<open>
  The state at program start, the state after \<^verbatim>\<open>New(nil)\<close> alone, a clock, a clock
  reading, and the states in which a logger derived from each holds a channel in its
  fields.
\<close>

definition boot :: state where
  "boot = fst program_start"


definition fixed_clock :: Clock where
  "fixed_clock n layout = ''2024-01-02 15:04:0'' @ [digit_char n]"

definition sample_time :: Time where
  "sample_time = \<lparr>Year = 2024, Month = 11, Day = 2, Hour = 15, Minute = 4, Second = 5\<rparr>"



text \<open>
  The text of an error of \<^verbatim>\<open>json.Marshal\<close> that holds double quotes (a failing
  \<^verbatim>\<open>MarshalJSON\<close> method chooses its text), and a state in which a logger holds a
  value that fails so.
\<close>

definition quote_error :: string where
  \<open>quote_error = ''json: error calling MarshalJSON for type main.T: bad "x"''\<close>

definition quote_state :: state where
  "quote_state =
     (case Logger_AddField boot 0 ''t'' (VUnsupported quote_error) of
        Returned s l \<Rightarrow> s | Panicked s p \<Rightarrow> s | Exited s c \<Rightarrow> s)"


section \<open>Characters and digits\<close>

lemma char_of_eq_iff: "char_of (n::nat) = c \<longleftrightarrow> n mod 256 = of_char c"
  by (metis of_char_of char_of_char)

lemma digit_char_0: "digit_char 0 = CHR ''0''"
  by (simp add: digit_char_def char_of_eq_iff)

lemma replicate_small: "replicate 1 c = [c]" "replicate 2 c = [c, c]" "replicate 3 c = [c, c, c]"
  by (simp_all add: numeral_2_eq_2 numeral_3_eq_3)

lemma formatBits_1: "n < 10 \<Longrightarrow> formatBits n = [digit_char n]"
  by (simp add: formatBits.simps)

lemma formatBits_2: "10 \<le> n \<Longrightarrow> n < 100 \<Longrightarrow> formatBits n = [digit_char (n div 10), digit_char (n mod 10)]"
  by (subst formatBits.simps) (simp add: formatBits_1)

lemma formatBits_3: "100 \<le> n \<Longrightarrow> n < 1000 \<Longrightarrow>
  formatBits n = [digit_char (n div 100), digit_char (n div 10 mod 10), digit_char (n mod 10)]"
  by (subst formatBits.simps) (simp add: formatBits_2 div_mult2_eq [symmetric])

lemma formatBits_4: "1000 \<le> n \<Longrightarrow> n < 10000 \<Longrightarrow>
  formatBits n = [digit_char (n div 1000), digit_char (n div 100 mod 10),
                  digit_char (n div 10 mod 10), digit_char (n mod 10)]"
  by (subst formatBits.simps) (simp add: formatBits_3 div_mult2_eq [symmetric])

lemma appendInt_2:
  "n < 100 \<Longrightarrow> appendInt (int n) 2 = [digit_char (n div 10), digit_char (n mod 10)]"
  by (cases "n < 10") (simp_all add: appendInt_def formatBits_1 formatBits_2 digit_char_0)

lemma appendInt_4:
  assumes "0 \<le> y" "y \<le> 9999"
  shows "appendInt y 4 =
    [digit_char (nat y div 1000), digit_char (nat y div 100 mod 10),
     digit_char (nat y div 10 mod 10), digit_char (nat y mod 10)]"
proof -
  define n where "n = nat y"
  have y: "\<bar>y\<bar> = int n" "\<not> y < 0" "n < 10000" using assms by (simp_all add: n_def)
  consider "n < 10" | "10 \<le> n" "n < 100" | "100 \<le> n" "n < 1000" | "1000 \<le> n" "n < 10000"
    using y(3) by linarith
  then have "appendInt (int n) 4 =
    [digit_char (n div 1000), digit_char (n div 100 mod 10),
     digit_char (n div 10 mod 10), digit_char (n mod 10)]"
    by cases (simp_all add: appendInt_def formatBits_1 formatBits_2 formatBits_3 formatBits_4
         digit_char_0 replicate_small)
  then show ?thesis using assms by (simp add: n_def)
qed


section \<open>The heap under derivation\<close>

lemma map_of_assign_all:
  "distinct_keys src \<Longrightarrow> map_of (assign_all src dst) = map_of dst ++ map_of src"
proof (induction src arbitrary: dst)
  case Nil
  then show ?case by (simp add: assign_all_def)
next
  case (Cons kv src)
  obtain k v where kv: "kv = (k, v)" by (cases kv)
  from Cons.prems kv have k: "k \<notin> dom (map_of src)" and d: "distinct_keys src"
    by (auto simp: distinct_keys_def dom_map_of_conv_image_fst)
  have "map_of (assign_all (kv # src) dst) = map_of (assign_all src (AList.update k v dst))"
    by (simp add: assign_all_def kv)
  also have "\<dots> = (map_of dst)(k \<mapsto> v) ++ map_of src"
    by (simp only: Cons.IH [OF d] update_conv')
  also have "\<dots> = (map_of dst ++ map_of src)(k \<mapsto> v)"
    using k by (rule map_add_upd_left)
  finally show ?case unfolding kv by (simp only: map_of.simps fst_conv snd_conv map_add_upd)
qed

lemma distinct_keys_assign_all:
  "distinct_keys dst \<Longrightarrow> distinct_keys (assign_all src dst)"
  by (induction src arbitrary: dst) (auto simp: assign_all_def distinct_keys_def distinct_update)

lemma fold_map_assign_maps:
  "a < length (maps s) \<Longrightarrow>
   maps (fold (map_assign a) kvs s) = (maps s)[a := assign_all kvs (maps s ! a)]"
  by (induction kvs arbitrary: s) (auto simp: map_assign_def assign_all_def)

lemma fold_map_assign_other:
  "loggers (fold (map_assign a) kvs s) = loggers s"
  "stdlogs (fold (map_assign a) kvs s) = stdlogs s"
  "written (fold (map_assign a) kvs s) = written s"
  "ticks (fold (map_assign a) kvs s) = ticks s"
  by (induction kvs arbitrary: s) (auto simp: map_assign_def)

lemma Logger_clone_eq:
  assumes "valid_logger s l" "fields' (loggers s ! l) < length (maps s)"
  shows "Logger_clone s l =
    (s\<lparr>maps := maps s @ [assign_all (maps s ! fields' (loggers s ! l)) []],
       loggers := loggers s @ [(loggers s ! l)\<lparr>fields' := length (maps s)\<rparr>]\<rparr>,
     length (loggers s))"
  using assms
  by (simp add: Logger_clone_def make_Fields_def map_at_def fold_map_assign_maps
        fold_map_assign_other nth_append valid_logger_def)

lemma Logger_AddFields_eq:
  assumes "valid_logger s l" "fields' (loggers s ! l) < length (maps s)"
  shows "Logger_AddFields s l fs =
    Returned
      (s\<lparr>maps := maps s @ [assign_all fs (assign_all (maps s ! fields' (loggers s ! l)) [])],
         loggers := loggers s @ [(loggers s ! l)\<lparr>fields' := length (maps s)\<rparr>]\<rparr>)
      (length (loggers s))"
  using assms
  by (simp add: Logger_AddFields_def Logger_clone_eq fold_map_assign_maps
        fold_map_assign_other nth_append valid_logger_def)

lemma Logger_AddField_eq:
  assumes "valid_logger s l" "fields' (loggers s ! l) < length (maps s)"
  shows "Logger_AddField s l key val =
    Returned
      (s\<lparr>maps := maps s @ [AList.update key val (assign_all (maps s ! fields' (loggers s ! l)) [])],
         loggers := loggers s @ [(loggers s ! l)\<lparr>fields' := length (maps s)\<rparr>]\<rparr>)
      (length (loggers s))"
  using assms
  by (simp add: Logger_AddField_def Logger_clone_eq map_assign_def nth_append valid_logger_def)

lemma wf_state_fields:
  "wf_state s \<Longrightarrow> valid_logger s l \<Longrightarrow> fields' (loggers s ! l) < length (maps s)"
  by (simp add: wf_state_def valid_logger_def list_all_length)

lemma wf_state_distinct:
  "wf_state s \<Longrightarrow> valid_logger s l \<Longrightarrow> distinct_keys (maps s ! fields' (loggers s ! l))"
  by (simp add: wf_state_def valid_logger_def list_all_length)

lemma wf_state_extend:
  assumes "wf_state s" "distinct_keys m" "fields' L \<le> length (maps s)"
  shows "wf_state (s\<lparr>maps := maps s @ [m], loggers := loggers s @ [L]\<rparr>)"
  using assms by (auto simp: wf_state_def list_all_iff)

lemma derived_old:
  assumes "derived s l s' l'" "wf_state s" "valid_logger s l0"
  shows "valid_logger s' l0" "loggers s' ! l0 = loggers s ! l0" "field_set s' l0 = field_set s l0"
    "l0 \<noteq> l'"
proof -
  have l0: "l0 < length (loggers s)" using assms(3) by (simp add: valid_logger_def)
  have f0: "fields' (loggers s ! l0) < length (maps s)"
    using assms(2,3) by (rule wf_state_fields)
  have tl: "take (length (loggers s)) (loggers s') = loggers s"
    and tm: "take (length (maps s)) (maps s') = maps s"
    using assms(1) by (simp_all add: derived_def)
  have len: "length (loggers s) \<le> length (loggers s')" "length (maps s) \<le> length (maps s')"
    using arg_cong [OF tl, of length] arg_cong [OF tm, of length] by simp_all
  show "valid_logger s' l0" using l0 len by (simp add: valid_logger_def)
  show eq: "loggers s' ! l0 = loggers s ! l0" using l0 tl by (metis nth_take)
  have "maps s' ! fields' (loggers s ! l0) = maps s ! fields' (loggers s ! l0)"
    using f0 tm by (metis nth_take)
  then show "field_set s' l0 = field_set s l0"
    using f0 len by (simp add: field_set_def map_at_def eq)
  show "l0 \<noteq> l'" using assms(1) l0 by (simp add: derived_def)
qed

lemma Logger_AddFields_spec:
  assumes "wf_state s" and "valid_logger s l" and "distinct_keys fs"
  shows "\<exists>s' l'. Logger_AddFields s l fs = Returned s' l' \<and> derived s l s' l'
     \<and> field_set s' l' = field_set s l ++ map_of fs"
proof -
  let ?f = "fields' (loggers s ! l)"
  let ?m = "assign_all fs (assign_all (maps s ! ?f) [])"
  let ?s' = "s\<lparr>maps := maps s @ [?m],
                loggers := loggers s @ [(loggers s ! l)\<lparr>fields' := length (maps s)\<rparr>]\<rparr>"
  have f: "?f < length (maps s)" using assms(1,2) by (rule wf_state_fields)
  have d: "distinct_keys (maps s ! ?f)" using assms(1,2) by (rule wf_state_distinct)
  have run: "Logger_AddFields s l fs = Returned ?s' (length (loggers s))"
    by (rule Logger_AddFields_eq [OF assms(2) f])
  have dm: "distinct_keys ?m"
    by (intro distinct_keys_assign_all) (simp add: distinct_keys_def)
  have wf: "wf_state ?s'"
    using assms(1) dm by (rule wf_state_extend) simp
  have new: "field_set ?s' (length (loggers s)) = field_set s l ++ map_of fs"
    using f d assms(3) by (simp add: field_set_def map_at_def map_of_assign_all)
  have "derived s l ?s' (length (loggers s))"
    using wf by (simp add: derived_def valid_logger_def)
  then show ?thesis using run new by blast
qed

lemma Logger_AddField_spec:
  assumes "wf_state s" and "valid_logger s l"
  shows "\<exists>s' l'. Logger_AddField s l key val = Returned s' l' \<and> derived s l s' l'
     \<and> field_set s' l' = (field_set s l)(key \<mapsto> val)"
proof -
  let ?f = "fields' (loggers s ! l)"
  let ?m = "AList.update key val (assign_all (maps s ! ?f) [])"
  let ?s' = "s\<lparr>maps := maps s @ [?m],
                loggers := loggers s @ [(loggers s ! l)\<lparr>fields' := length (maps s)\<rparr>]\<rparr>"
  have f: "?f < length (maps s)" using assms by (rule wf_state_fields)
  have d: "distinct_keys (maps s ! ?f)" using assms by (rule wf_state_distinct)
  have run: "Logger_AddField s l key val = Returned ?s' (length (loggers s))"
    by (rule Logger_AddField_eq [OF assms(2) f])
  have "distinct_keys (assign_all (maps s ! ?f) [])"
    by (intro distinct_keys_assign_all) (simp add: distinct_keys_def)
  then have dm: "distinct_keys ?m"
    by (simp add: distinct_keys_def distinct_update)
  have wf: "wf_state ?s'"
    using assms(1) dm by (rule wf_state_extend) simp
  have new: "field_set ?s' (length (loggers s)) = (field_set s l)(key \<mapsto> val)"
    using f d by (simp add: field_set_def map_at_def update_conv' map_of_assign_all)
  have "derived s l ?s' (length (loggers s))"
    using wf by (simp add: derived_def valid_logger_def)
  then show ?thesis using run new by blast
qed

lemma boot_eq:
  "boot = \<lparr>loggers = [\<lparr>level = 1, logger = 0, fields' = 0, output' = Some 1,
                         timeFormat = ''2006-01-02 15:04:05''\<rparr>],
           maps = [[]], stdlogs = [Some 1], written = [], ticks = 0\<rparr>"
  by (simp add: boot_def program_start_def New_def make_Fields_def LevelInfo_def os_Stdout_def)



lemma defaultLogger_eq: "defaultLogger = 0"
  by (simp add: defaultLogger_def program_start_def New_def make_Fields_def)

lemma boot_wf: "wf_state boot"
  by (simp add: boot_eq wf_state_def distinct_keys_def)

lemma boot_valid: "valid_logger boot 0"
  by (simp add: boot_eq valid_logger_def)


section \<open>Emission\<close>


lemma map_at_ticks: "map_at (s\<lparr>ticks := n\<rparr>) a = map_at s a"
  by (simp add: map_at_def)

lemma Logger_log_at_or_above:
  assumes "valid_logger s l" and "\<not> lvl < level (loggers s ! l)"
  shows "Logger_log clk s l lvl msg =
    (case json_Marshal (log_entry lvl msg (clk (ticks s) (timeFormat (loggers s ! l)))
                          (map_at s (fields' (loggers s ! l)))) of
       Inl err \<Rightarrow>
         Fprintln (output' (loggers s ! l))
           (fallback_line err (clk (Suc (ticks s)) (timeFormat (loggers s ! l))))
           (s\<lparr>ticks := Suc (Suc (ticks s))\<rparr>)
     | Inr jsonData \<Rightarrow>
         Fprintln (output' (loggers s ! l)) jsonData (s\<lparr>ticks := Suc (ticks s)\<rparr>))"
  using assms
  by (simp add: Logger_log_def Let_def time_Now_Format_def map_at_ticks split: sum.split)


lemma Logger_log_nil_sink:
  assumes "valid_logger s l" and "\<not> lvl < level (loggers s ! l)"
    and "output' (loggers s ! l) = None"
  shows "\<exists>n. Logger_log clk s l lvl msg = Panicked (s\<lparr>ticks := ticks s + n\<rparr>) NilDereference"
proof (cases "json_Marshal (log_entry lvl msg (clk (ticks s) (timeFormat (loggers s ! l)))
                 (map_at s (fields' (loggers s ! l))))")
  case (Inl err)
  then have "Logger_log clk s l lvl msg = Panicked (s\<lparr>ticks := ticks s + 2\<rparr>) NilDereference"
    by (simp add: Logger_log_at_or_above [OF assms(1,2)] Fprintln_def assms(3))
  then show ?thesis by blast
next
  case (Inr jsonData)
  then have "Logger_log clk s l lvl msg = Panicked (s\<lparr>ticks := ticks s + 1\<rparr>) NilDereference"
    by (simp add: Logger_log_at_or_above [OF assms(1,2)] Fprintln_def assms(3))
  then show ?thesis by blast
qed


section \<open>The threshold\<close>





section \<open>Deriving loggers\<close>

text \<open>
  C3: \<^verbatim>\<open>logger.AddFields(F1).AddFields(F2)\<close> returns a logger whose field set is the
  receiver's field set merged with \<open>F1\<close> and then with \<open>F2\<close>, a later write taking
  the place of an earlier one, and the receiver's field set is the same after each call.
\<close>

theorem AddFields_twice:
  assumes "wf_state s" and "valid_logger s l" and "distinct_keys F1" and "distinct_keys F2"
  shows "\<exists>s1 l1 s2 l2.
       Logger_AddFields s l F1 = Returned s1 l1
     \<and> Logger_AddFields s1 l1 F2 = Returned s2 l2
     \<and> field_set s2 l2 = field_set s l ++ map_of F1 ++ map_of F2
     \<and> field_set s1 l = field_set s l
     \<and> field_set s2 l = field_set s l
     \<and> loggers s2 ! l = loggers s ! l"
proof -
  obtain s1 l1 where run1: "Logger_AddFields s l F1 = Returned s1 l1"
    and d1: "derived s l s1 l1" and new1: "field_set s1 l1 = field_set s l ++ map_of F1"
    using Logger_AddFields_spec [OF assms(1,2,3)] by blast
  have wf1: "wf_state s1" and v1: "valid_logger s1 l1"
    using d1 by (auto simp: derived_def)
  obtain s2 l2 where run2: "Logger_AddFields s1 l1 F2 = Returned s2 l2"
    and d2: "derived s1 l1 s2 l2" and new2: "field_set s2 l2 = field_set s1 l1 ++ map_of F2"
    using Logger_AddFields_spec [OF wf1 v1 assms(4)] by blast
  note old1 = derived_old [OF d1 assms(1) assms(2)]
  note old2 = derived_old [OF d2 wf1 old1(1)]
  show ?thesis
    using run1 run2 new1 new2 old1 old2 by simp
qed

theorem AddFields_twice_witness:
  "wf_state boot \<and> valid_logger boot 0
   \<and> distinct_keys [(''a'', VInt 1), (''b'', VInt 2)]
   \<and> distinct_keys [(''b'', VInt 3), (''c'', VInt 4)]
   \<and> (\<exists>s1 l1 s2 l2.
       Logger_AddFields boot 0 [(''a'', VInt 1), (''b'', VInt 2)] = Returned s1 l1
     \<and> Logger_AddFields s1 l1 [(''b'', VInt 3), (''c'', VInt 4)] = Returned s2 l2
     \<and> field_set s2 l2 = field_set boot 0 ++ map_of [(''a'', VInt 1), (''b'', VInt 2)]
                             ++ map_of [(''b'', VInt 3), (''c'', VInt 4)]
     \<and> field_set s1 0 = field_set boot 0
     \<and> field_set s2 0 = field_set boot 0
     \<and> loggers s2 ! 0 = loggers boot ! 0)"
proof -
  have d1: "distinct_keys [(''a'', VInt 1), (''b'', VInt 2)]"
    and d2: "distinct_keys [(''b'', VInt 3), (''c'', VInt 4)]"
    by (simp_all add: distinct_keys_def)
  from AddFields_twice [OF boot_wf boot_valid d1 d2] boot_wf boot_valid d1 d2
  show ?thesis by simp
qed

text \<open>
  C5: \<^verbatim>\<open>AddField(key, value)\<close> returns a new logger with the receiver's threshold,
  sink and format, whose field set is the receiver's with \<open>key\<close> mapped to
  \<open>value\<close>; the receiver keeps every field, and its field set.
\<close>

theorem AddField_derives:
  assumes "wf_state s" and "valid_logger s l"
  shows "\<exists>s' l'. Logger_AddField s l key val = Returned s' l'
     \<and> \<not> valid_logger s l' \<and> valid_logger s' l'
     \<and> level (loggers s' ! l') = level (loggers s ! l)
     \<and> output' (loggers s' ! l') = output' (loggers s ! l)
     \<and> timeFormat (loggers s' ! l') = timeFormat (loggers s ! l)
     \<and> field_set s' l' = (field_set s l)(key \<mapsto> val)
     \<and> loggers s' ! l = loggers s ! l
     \<and> field_set s' l = field_set s l"
proof -
  obtain s' l' where run: "Logger_AddField s l key val = Returned s' l'"
    and d: "derived s l s' l'" and new: "field_set s' l' = (field_set s l)(key \<mapsto> val)"
    using Logger_AddField_spec [OF assms] by blast
  note old = derived_old [OF d assms(1) assms(2)]
  from d have "\<not> valid_logger s l'" "valid_logger s' l'"
    "level (loggers s' ! l') = level (loggers s ! l)"
    "output' (loggers s' ! l') = output' (loggers s ! l)"
    "timeFormat (loggers s' ! l') = timeFormat (loggers s ! l)"
    by (auto simp: derived_def valid_logger_def)
  with run new old show ?thesis by simp
qed

theorem AddField_derives_witness:
  "wf_state boot \<and> valid_logger boot 0
   \<and> (\<exists>s' l'. Logger_AddField boot 0 ''req_id'' (VString ''abc123'') = Returned s' l'
     \<and> \<not> valid_logger boot l' \<and> valid_logger s' l'
     \<and> level (loggers s' ! l') = level (loggers boot ! 0)
     \<and> output' (loggers s' ! l') = output' (loggers boot ! 0)
     \<and> timeFormat (loggers s' ! l') = timeFormat (loggers boot ! 0)
     \<and> field_set s' l' = (field_set boot 0)(''req_id'' \<mapsto> VString ''abc123'')
     \<and> loggers s' ! 0 = loggers boot ! 0
     \<and> field_set s' 0 = field_set boot 0)"
  using AddField_derives [OF boot_wf boot_valid, of "''req_id''" "VString ''abc123''"]
    boot_wf boot_valid by simp


section \<open>Construction\<close>

lemma default_layout_renders:
  assumes "valid_Time t"
  shows "time_Format t ''2006-01-02 15:04:05'' =
     Some (four_digits (nat (Year t)) @ ''-'' @ two_digits (Month t) @ ''-'' @ two_digits (Day t)
           @ '' '' @ two_digits (Hour t) @ '':'' @ two_digits (Minute t) @ '':''
           @ two_digits (Second t))"
  using assms
  by (simp add: valid_Time_def appendInt_2 appendInt_4 two_digits_def four_digits_def)

text \<open>
  C6: \<^verbatim>\<open>New(sink)\<close> returns a new logger whose threshold is Info, whose sink is the
  one given, whose field set is empty, and whose layout renders a clock reading as the
  year in four digits, the month and the day in two, and the time of day as
  \<^verbatim>\<open>HH:MM:SS\<close> on 24 hours, zero-padded, a space between the date and the time.
\<close>

theorem New_constructs:
  assumes "valid_Time t"
  shows "level (loggers (fst (New s out)) ! snd (New s out)) = LevelInfo
     \<and> output' (loggers (fst (New s out)) ! snd (New s out)) = out
     \<and> map_at (fst (New s out)) (fields' (loggers (fst (New s out)) ! snd (New s out))) = []
     \<and> time_Format t (timeFormat (loggers (fst (New s out)) ! snd (New s out))) =
         Some (four_digits (nat (Year t)) @ ''-'' @ two_digits (Month t) @ ''-''
               @ two_digits (Day t) @ '' '' @ two_digits (Hour t) @ '':''
               @ two_digits (Minute t) @ '':'' @ two_digits (Second t))
     \<and> valid_logger (fst (New s out)) (snd (New s out))
     \<and> \<not> valid_logger s (snd (New s out))
     \<and> take (length (loggers s)) (loggers (fst (New s out))) = loggers s
     \<and> take (length (maps s)) (maps (fst (New s out))) = maps s"
  using default_layout_renders [OF assms]
  by (simp add: New_def make_Fields_def map_at_def valid_logger_def)

theorem New_constructs_witness:
  "valid_Time sample_time
   \<and> level (loggers (fst (New boot (Some 7))) ! snd (New boot (Some 7))) = LevelInfo
   \<and> output' (loggers (fst (New boot (Some 7))) ! snd (New boot (Some 7))) = Some 7
   \<and> map_at (fst (New boot (Some 7))) (fields' (loggers (fst (New boot (Some 7))) ! snd (New boot (Some 7)))) = []
   \<and> time_Format sample_time (timeFormat (loggers (fst (New boot (Some 7))) ! snd (New boot (Some 7)))) =
         Some ''2024-11-02 15:04:05''"
proof -
  have v: "valid_Time sample_time" by (simp add: valid_Time_def sample_time_def)
  have d: "four_digits 2024 = ''2024''" "two_digits 11 = ''11''" "two_digits 2 = ''02''"
    "two_digits 15 = ''15''" "two_digits 4 = ''04''" "two_digits 5 = ''05''"
    by (simp_all add: four_digits_def two_digits_def digit_char_def char_of_eq_iff)
  from New_constructs [OF v, of boot "Some 7"] v show ?thesis
    by (simp add: sample_time_def d)
qed


section \<open>Severity names\<close>

text \<open>
  C8: the display-name function maps Debug, Info, Warn, Error, Fatal and Panic to
  "DEBUG", "INFO", "WARN", "ERROR", "FATAL" and "PANIC", and every other integer to
  "UNKNOWN".
\<close>

theorem LogLevel_String_names:
  "LogLevel_String l =
    (if l = LevelDebug then ''DEBUG'' else if l = LevelInfo then ''INFO''
     else if l = LevelWarn then ''WARN'' else if l = LevelError then ''ERROR''
     else if l = LevelFatal then ''FATAL'' else if l = LevelPanic then ''PANIC''
     else ''UNKNOWN'')"
  by (simp add: LogLevel_String_def levelNames_def LevelDebug_def LevelInfo_def LevelWarn_def
        LevelError_def LevelFatal_def LevelPanic_def)


section \<open>Panic and Fatal\<close>





section \<open>The fallback line\<close>
















section \<open>The fallback line is not escaped\<close>

lemma quote_state_eq:
  "quote_state =
     \<lparr>loggers = [\<lparr>level = 1, logger = 0, fields' = 0, output' = Some 1,
                   timeFormat = ''2006-01-02 15:04:05''\<rparr>,
                 \<lparr>level = 1, logger = 0, fields' = 1, output' = Some 1,
                   timeFormat = ''2006-01-02 15:04:05''\<rparr>],
      maps = [[], [(''t'', VUnsupported quote_error)]],
      stdlogs = [Some 1], written = [], ticks = 0\<rparr>"
  by (simp add: quote_state_def boot_eq Logger_AddField_def valid_logger_def Logger_clone_def
        make_Fields_def map_at_def map_assign_def)

lemma quote_state_log:
  "Logger_log fixed_clock quote_state 1 LevelInfo ''hello'' =
     Returned (quote_state\<lparr>written :=
         [(Some 1, fallback_line quote_error ''2024-01-02 15:04:01'' @ [CHR 0x0A])],
        ticks := 2\<rparr>) ()"
proof -
  have v: "valid_logger quote_state 1" by (simp add: quote_state_eq valid_logger_def)
  have lv: "\<not> LevelInfo < level (loggers quote_state ! 1)"
    by (simp add: quote_state_eq LevelInfo_def)
  have c: "fixed_clock (Suc 0) ''2006-01-02 15:04:05'' = ''2024-01-02 15:04:01''"
    by (simp add: fixed_clock_def digit_char_def char_of_eq_iff)
  have m: "json_Marshal (log_entry LevelInfo ''hello''
             (fixed_clock (ticks quote_state) (timeFormat (loggers quote_state ! 1)))
             (map_at quote_state (fields' (loggers quote_state ! 1)))) = Inl quote_error"
    by (simp add: quote_state_eq map_at_def log_entry_def json_Marshal_def split: sum.split)
  show ?thesis
    unfolding Logger_log_at_or_above [OF v lv] m
    by (simp add: quote_state_eq Fprintln_def c)
qed

text \<open>
  C10: the fallback line is the fixed template with the text of the error and the
  rendered timestamp put in as they are, with no JSON escaping; so the line that
  \<^verbatim>\<open>log\<close> writes for an error whose text holds a double quote is not valid JSON,
  nor is the line for an error text that is a backslash, or for a timestamp that is a
  double quote, while the line for an error text and a timestamp without such characters
  is a JSON object.
\<close>

theorem fallback_line_unescaped:
  "fallback_line err t =
     ''{'' @ [dquote] @ ''level'' @ [dquote] @ '': '' @ [dquote] @ ''ERROR'' @ [dquote] @ '',''
     @ [dquote] @ ''message'' @ [dquote] @ '': '' @ [dquote] @ ''Failed to marshal log entry''
     @ [dquote] @ '','' @ [dquote] @ ''error'' @ [dquote] @ '': '' @ [dquote] @ err @ [dquote]
     @ '','' @ [dquote] @ ''time'' @ [dquote] @ '': '' @ [dquote] @ t @ [dquote] @ ''}''
   \<and> Logger_log fixed_clock quote_state 1 LevelInfo ''hello'' =
       Returned (quote_state\<lparr>written :=
           [(Some 1, fallback_line quote_error ''2024-01-02 15:04:01'' @ [CHR 0x0A])],
          ticks := 2\<rparr>) ()
   \<and> json_parse (fallback_line quote_error ''2024-01-02 15:04:01'' @ [CHR 0x0A]) = None
   \<and> json_parse (fallback_line quote_error ''2024-01-02 15:04:01'') = None
   \<and> json_parse (fallback_line [backslash] ''2024-01-02 15:04:01'') = None
   \<and> json_parse (fallback_line ''json: unsupported type: chan int'' [dquote]) = None
   \<and> json_parse (fallback_line ''json: unsupported type: chan int'' ''2024-01-02 15:04:01'')
       = Some (JObject [(''level'', JString ''ERROR''),
           (''message'', JString ''Failed to marshal log entry''),
           (''error'', JString ''json: unsupported type: chan int''),
           (''time'', JString ''2024-01-02 15:04:01'')])"
proof -
  have 1: "json_parse (fallback_line quote_error ''2024-01-02 15:04:01'' @ [CHR 0x0A]) = None"
    by code_simp
  have 2: "json_parse (fallback_line quote_error ''2024-01-02 15:04:01'') = None"
    by code_simp
  have 3: "json_parse (fallback_line [backslash] ''2024-01-02 15:04:01'') = None"
    by code_simp
  have 4: "json_parse (fallback_line ''json: unsupported type: chan int'' [dquote]) = None"
    by code_simp
  have 5: "json_parse (fallback_line ''json: unsupported type: chan int'' ''2024-01-02 15:04:01'')
       = Some (JObject [(''level'', JString ''ERROR''),
           (''message'', JString ''Failed to marshal log entry''),
           (''error'', JString ''json: unsupported type: chan int''),
           (''time'', JString ''2024-01-02 15:04:01'')])"
    by code_simp
  have 0: "fallback_line err t =
     ''{'' @ [dquote] @ ''level'' @ [dquote] @ '': '' @ [dquote] @ ''ERROR'' @ [dquote] @ '',''
     @ [dquote] @ ''message'' @ [dquote] @ '': '' @ [dquote] @ ''Failed to marshal log entry''
     @ [dquote] @ '','' @ [dquote] @ ''error'' @ [dquote] @ '': '' @ [dquote] @ err @ [dquote]
     @ '','' @ [dquote] @ ''time'' @ [dquote] @ '': '' @ [dquote] @ t @ [dquote] @ ''}''"
    by (simp add: fallback_line_def dquote_def)
  show ?thesis
    using 0 1 2 3 4 5 quote_state_log by blast
qed


section \<open>The package-level functions\<close>

text \<open>
  C7: each package-level function is the method of the same name on the default logger;
  the package-level \<^verbatim>\<open>AddField\<close> and \<^verbatim>\<open>AddFields\<close> return a new logger and leave
  the default logger and its field set as they were.
\<close>

theorem package_functions_forward:
  assumes "wf_state s" and "valid_logger s defaultLogger" and "distinct_keys fs"
  shows "SetLevel s lvl = Logger_SetLevel s defaultLogger lvl
     \<and> SetOutput s w = Logger_SetOutput s defaultLogger w
     \<and> SetTimeFormat s format = Logger_SetTimeFormat s defaultLogger format
     \<and> AddField s key val = Logger_AddField s defaultLogger key val
     \<and> AddFields s fs = Logger_AddFields s defaultLogger fs
     \<and> Debug clk s msg = Logger_Debug clk s defaultLogger msg
     \<and> Info clk s msg = Logger_Info clk s defaultLogger msg
     \<and> Warn clk s msg = Logger_Warn clk s defaultLogger msg
     \<and> Error clk s msg = Logger_Error clk s defaultLogger msg
     \<and> Fatal clk s msg = Logger_Fatal clk s defaultLogger msg
     \<and> Panic clk s msg = Logger_Panic clk s defaultLogger msg
     \<and> (\<exists>s' l'. AddField s key val = Returned s' l' \<and> l' \<noteq> defaultLogger
           \<and> field_set s' l' = (field_set s defaultLogger)(key \<mapsto> val)
           \<and> loggers s' ! defaultLogger = loggers s ! defaultLogger
           \<and> field_set s' defaultLogger = field_set s defaultLogger)
     \<and> (\<exists>s' l'. AddFields s fs = Returned s' l' \<and> l' \<noteq> defaultLogger
           \<and> field_set s' l' = field_set s defaultLogger ++ map_of fs
           \<and> loggers s' ! defaultLogger = loggers s ! defaultLogger
           \<and> field_set s' defaultLogger = field_set s defaultLogger)"
proof -
  obtain s1 l1 where 1: "Logger_AddField s defaultLogger key val = Returned s1 l1"
    "derived s defaultLogger s1 l1" "field_set s1 l1 = (field_set s defaultLogger)(key \<mapsto> val)"
    using Logger_AddField_spec [OF assms(1,2)] by blast
  obtain s2 l2 where 2: "Logger_AddFields s defaultLogger fs = Returned s2 l2"
    "derived s defaultLogger s2 l2" "field_set s2 l2 = field_set s defaultLogger ++ map_of fs"
    using Logger_AddFields_spec [OF assms] by blast
  note o1 = derived_old [OF 1(2) assms(1,2)] and o2 = derived_old [OF 2(2) assms(1,2)]
  show ?thesis
    using 1 2 o1 o2
    by (simp add: SetLevel_def SetOutput_def SetTimeFormat_def AddField_def AddFields_def
          Debug_def Info_def Warn_def Error_def Fatal_def Panic_def)
qed

theorem package_functions_forward_witness:
  "wf_state boot \<and> valid_logger boot defaultLogger \<and> distinct_keys [(''a'', VInt 1)]
   \<and> Info fixed_clock boot ''hello'' = Logger_Info fixed_clock boot defaultLogger ''hello''
   \<and> SetLevel boot LevelWarn = Logger_SetLevel boot defaultLogger LevelWarn
   \<and> (\<exists>s' l'. AddField boot ''k'' VNil = Returned s' l' \<and> l' \<noteq> defaultLogger
           \<and> field_set s' l' = (field_set boot defaultLogger)(''k'' \<mapsto> VNil)
           \<and> loggers s' ! defaultLogger = loggers boot ! defaultLogger
           \<and> field_set s' defaultLogger = field_set boot defaultLogger)
   \<and> (\<exists>s' l'. AddFields boot [(''a'', VInt 1)] = Returned s' l' \<and> l' \<noteq> defaultLogger
           \<and> field_set s' l' = field_set boot defaultLogger ++ map_of [(''a'', VInt 1)]
           \<and> loggers s' ! defaultLogger = loggers boot ! defaultLogger
           \<and> field_set s' defaultLogger = field_set boot defaultLogger)"
proof -
  have v: "valid_logger boot defaultLogger" using boot_valid by (simp add: defaultLogger_eq)
  have d: "distinct_keys [(''a'', VInt 1)]" by (simp add: distinct_keys_def)
  from package_functions_forward [OF boot_wf v d, of LevelWarn None "''x''" "''k''" VNil fixed_clock "''hello''"]
    boot_wf v d
  show ?thesis by blast
qed

end
